theory Spec2Isabelle
  imports Main "HOL-Library.Word" "HOL-Library.Char_ord" "HOL-Library.List_Lexorder"
begin

section \<open>Time, as the buffer and the sync worker use it\<close>

text \<open>
  A \<^verbatim>\<open>time.Time\<close> is modelled as the instant it denotes, in nanoseconds since the Unix
  epoch (zone and monotonic reading dropped: the buffer compares and prints instants only).
  A \<^verbatim>\<open>time.Duration\<close> is a number of nanoseconds. \<^verbatim>\<open>UnixNano\<close> returns an
  \<^verbatim>\<open>int64\<close>: outside the years 1678 to 2262 the value wraps.
\<close>

type_synonym time = int
type_synonym duration = int

definition Second :: duration where
  "Second = 1000000000"

definition Minute :: duration where
  "Minute = 60 * Second"

definition Hour :: duration where
  "Hour = 60 * Minute"

definition time_Add :: "time \<Rightarrow> duration \<Rightarrow> time" where
  "time_Add t d = t + d"

definition time_Before :: "time \<Rightarrow> time \<Rightarrow> bool" where
  "time_Before t u = (t < u)"

definition time_Equal :: "time \<Rightarrow> time \<Rightarrow> bool" where
  "time_Equal t u = (t = u)"

definition UnixNano :: "time \<Rightarrow> int" where
  "UnixNano t = sint (word_of_int t :: 64 word)"

section \<open>Formatting the storage key\<close>

text \<open>The verb \<^verbatim>\<open>%d\<close> of \<^verbatim>\<open>fmt.Sprintf\<close>: decimal digits, a minus sign for a negative number.\<close>

definition digit_char :: "nat \<Rightarrow> char" where
  "digit_char d = ''0123456789'' ! d"

function show_nat :: "nat \<Rightarrow> string" where
  "show_nat n = (if n < 10 then [digit_char n] else show_nat (n div 10) @ [digit_char (n mod 10)])"
  by pat_completeness auto
termination
  by (relation "measure id") auto

declare show_nat.simps [simp del]

definition show_int :: "int \<Rightarrow> string" where
  "show_int i = (if i < 0 then CHR ''-'' # show_nat (nat (- i)) else show_nat (nat i))"

text \<open>\<^verbatim>\<open>fmt.Sprintf("%d_%s", timestamp.UnixNano(), eventID)\<close>, as Store, Delete and UpdateRetries build it.\<close>

definition event_key :: "time \<Rightarrow> string \<Rightarrow> string" where
  "event_key timestamp eventID = show_int (UnixNano timestamp) @ ''_'' @ eventID"

section \<open>Events and their stored form\<close>

text \<open>
  The struct \<^verbatim>\<open>Event\<close> of buffer.go. \<^verbatim>\<open>Retries\<close> is a Go \<^verbatim>\<open>int\<close> (64 bits, read as
  signed); a nil \<^verbatim>\<open>RequestedReadyTime\<close> is \<open>None\<close> (the revision of the buffer that
  names the field \<^verbatim>\<open>DelayedUntil\<close> uses it in the same way). A \<^verbatim>\<open>time.Time\<close> is
  the instant it denotes.

  \<^verbatim>\<open>Data\<close> is a \<^verbatim>\<open>map[string]interface{}\<close> that the buffer never looks into; only
  its JSON form matters. A map is \<open>JSONMap t\<close>, the map that \<^verbatim>\<open>json.Unmarshal\<close> builds
  from the JSON text \<open>t\<close> (and for which \<^verbatim>\<open>json.Marshal\<close> writes \<open>t\<close> again); or
  \<open>GoMap t\<close>, a map for which \<^verbatim>\<open>json.Marshal\<close> writes \<open>t\<close> but which is not the map
  that \<open>t\<close> decodes to (it holds an \<^verbatim>\<open>int\<close> where decoding gives a
  \<^verbatim>\<open>float64\<close>, a string that is not valid UTF-8, a struct where decoding gives a
  map); or \<open>UnsupportedMap\<close>, a map holding a value that \<^verbatim>\<open>json.Marshal\<close> rejects (a
  channel, a function, a NaN).
\<close>

datatype payload = JSONMap string | GoMap string | UnsupportedMap

fun payload_readback :: "payload \<Rightarrow> payload" where
  "payload_readback (JSONMap t) = JSONMap t"
| "payload_readback (GoMap t) = JSONMap t"
| "payload_readback UnsupportedMap = UnsupportedMap"

record Event =
  ID :: string
  Operation :: string
  Timestamp :: time
  Data :: payload
  Retries :: "64 word"
  RequestedReadyTime :: "time option"

datatype error =
  ErrKeyRequired
  | ErrKeyTooLarge
  | ErrEventNotFound
  | ErrSyntax
  | ErrMarshal
  | ErrContext
  | ErrKafkaWrite int
  | ErrWrap string error

subsection \<open>What encoding/json does to a string\<close>

text \<open>
  \<^verbatim>\<open>json.Marshal\<close> writes a string byte by byte; where
  \<^verbatim>\<open>utf8.DecodeRuneInString\<close> finds no valid encoding it writes the replacement
  character U+FFFD in place of one byte. \<open>utf8_size\<close> is the length of the valid encoding
  at the head of a string (as the tables \<^verbatim>\<open>first\<close> and \<^verbatim>\<open>acceptRanges\<close>
  of the package decide it), or 0 when there is none.
\<close>

definition in_range :: "nat \<Rightarrow> nat \<Rightarrow> char \<Rightarrow> bool" where
  "in_range lo hi c = (lo \<le> of_char c \<and> (of_char c :: nat) \<le> hi)"

fun utf8_size :: "string \<Rightarrow> nat" where
  "utf8_size [] = 0"
| "utf8_size (c # rest) =
     (let b = (of_char c :: nat) in
      if b < 128 then 1
      else if b < 194 then 0
      else if b < 224 then
        (case rest of
           c1 # _ \<Rightarrow> if in_range 128 191 c1 then 2 else 0
         | _ \<Rightarrow> 0)
      else if b < 240 then
        (case rest of
           c1 # c2 # _ \<Rightarrow>
             if in_range (if b = 224 then 160 else 128) (if b = 237 then 159 else 191) c1
                \<and> in_range 128 191 c2
             then 3 else 0
         | _ \<Rightarrow> 0)
      else if b < 245 then
        (case rest of
           c1 # c2 # c3 # _ \<Rightarrow>
             if in_range (if b = 240 then 144 else 128) (if b = 244 then 143 else 191) c1
                \<and> in_range 128 191 c2 \<and> in_range 128 191 c3
             then 4 else 0
         | _ \<Rightarrow> 0)
      else 0)"

definition replacement_char :: string where
  "replacement_char = [CHR 0xEF, CHR 0xBF, CHR 0xBD]"

text \<open>
  The string that is read back: \<open>k\<close> is the number of bytes still to copy of an encoding
  already found valid.
\<close>

fun utf8_coerce_from :: "nat \<Rightarrow> string \<Rightarrow> string" where
  "utf8_coerce_from k [] = []"
| "utf8_coerce_from (Suc k) (c # rest) = c # utf8_coerce_from k rest"
| "utf8_coerce_from 0 (c # rest) =
     (case utf8_size (c # rest) of
        0 \<Rightarrow> replacement_char @ utf8_coerce_from 0 rest
      | Suc k \<Rightarrow> c # utf8_coerce_from k rest)"

definition utf8_coerce :: "string \<Rightarrow> string" where
  "utf8_coerce s = utf8_coerce_from 0 s"

subsection \<open>The stored form of an event\<close>

text \<open>
  \<^verbatim>\<open>Time.MarshalJSON\<close> fails for an instant whose year is not within 0 to 9999
  (the year is read in UTC here).
\<close>

definition rfc3339_ok :: "time \<Rightarrow> bool" where
  "rfc3339_ok t = (- 62167219200 * Second \<le> t \<and> t < 253402300800 * Second)"

definition json_encodable :: "Event \<Rightarrow> bool" where
  "json_encodable event =
     (rfc3339_ok (Timestamp event)
      \<and> (case RequestedReadyTime event of None \<Rightarrow> True | Some t \<Rightarrow> rfc3339_ok t)
      \<and> Data event \<noteq> UnsupportedMap)"

text \<open>The event that the JSON text of an event decodes to.\<close>

definition json_readback :: "Event \<Rightarrow> Event" where
  "json_readback event =
     event\<lparr>ID := utf8_coerce (ID event), Operation := utf8_coerce (Operation event),
           Data := payload_readback (Data event)\<rparr>"

text \<open>
  A value of the bucket is a byte string. The buffer only ever looks at it through
  \<^verbatim>\<open>json.Unmarshal\<close> into an Event, so a value is either \<open>EventJSON e\<close>, the JSON text
  that \<^verbatim>\<open>json.Marshal\<close> writes for the event \<open>e\<close>, or other bytes, which do not
  decode. The text of \<open>e\<close> decodes to \<open>json_readback e\<close>: the strings come back with
  invalid UTF-8 replaced, the map as its text decodes, the instants and the retry count as
  they were written.
\<close>

datatype stored_value = EventJSON Event | NotEventJSON string

definition json_Marshal :: "Event \<Rightarrow> error + stored_value" where
  "json_Marshal event = (if json_encodable event then Inr (EventJSON event) else Inl ErrMarshal)"

fun json_Unmarshal :: "stored_value \<Rightarrow> error + Event" where
  "json_Unmarshal (EventJSON event) =
     (if json_encodable event then Inr (json_readback event) else Inl ErrSyntax)"
| "json_Unmarshal (NotEventJSON raw) = Inl ErrSyntax"

section \<open>The bucket of the embedded store\<close>

text \<open>
  The bucket \<^verbatim>\<open>events\<close> is an ordered key-value store: its cursor visits the keys in
  ascending bytewise order, which is the lexicographic order of \<open>string\<close>. The bucket is
  the list of its entries as the cursor visits them. A write transaction whose function
  returns an error is rolled back.
\<close>

type_synonym bucket = "(string \<times> stored_value) list"

definition MaxKeySize :: nat where
  "MaxKeySize = 32768"

fun bucket_insert :: "string \<Rightarrow> stored_value \<Rightarrow> bucket \<Rightarrow> bucket" where
  "bucket_insert k v [] = [(k, v)]"
| "bucket_insert k v ((k', v') # rest) =
     (if k < k' then (k, v) # (k', v') # rest
      else if k = k' then (k, v) # rest
      else (k', v') # bucket_insert k v rest)"

definition bucket_Put :: "string \<Rightarrow> stored_value \<Rightarrow> bucket \<Rightarrow> error option \<times> bucket" where
  "bucket_Put k v bucket =
     (if length k = 0 then (Some ErrKeyRequired, bucket)
      else if length k > MaxKeySize then (Some ErrKeyTooLarge, bucket)
      else (None, bucket_insert k v bucket))"

definition bucket_Get :: "string \<Rightarrow> bucket \<Rightarrow> stored_value option" where
  "bucket_Get k bucket = map_of bucket k"

definition bucket_Delete :: "string \<Rightarrow> bucket \<Rightarrow> error option \<times> bucket" where
  "bucket_Delete k bucket = (None, filter (\<lambda>(k', v'). k' \<noteq> k) bucket)"

definition db_Update :: "(bucket \<Rightarrow> error option \<times> bucket) \<Rightarrow> bucket \<Rightarrow> error option \<times> bucket" where
  "db_Update fn bucket =
     (case fn bucket of
        (Some err, bucket') \<Rightarrow> (Some err, bucket)
      | (None, bucket') \<Rightarrow> (None, bucket'))"

section \<open>buffer.go\<close>

definition Store :: "Event \<Rightarrow> bucket \<Rightarrow> error option \<times> bucket" where
  "Store event =
     db_Update (\<lambda>bucket.
       case json_Marshal event of
         Inl err \<Rightarrow> (Some (ErrWrap ''failed to marshal event'' err), bucket)
       | Inr data \<Rightarrow> bucket_Put (event_key (Timestamp event) (ID event)) data bucket)"

text \<open>
  The cursor loop of GetBatch: \<open>count\<close> and \<open>events\<close> are the loop's variables, the
  list is what the cursor has still to visit.
\<close>

fun GetBatch_loop :: "int \<Rightarrow> bucket \<Rightarrow> int \<Rightarrow> Event list \<Rightarrow> Event list" where
  "GetBatch_loop batchSize [] count events = events"
| "GetBatch_loop batchSize ((key, val) # rest) count events =
     (if count < batchSize then
        (case json_Unmarshal val of
           Inl err \<Rightarrow> GetBatch_loop batchSize rest count events
         | Inr event \<Rightarrow> GetBatch_loop batchSize rest (count + 1) (events @ [event]))
      else events)"

definition GetBatch :: "int \<Rightarrow> bucket \<Rightarrow> Event list \<times> error option" where
  "GetBatch batchSize bucket = (GetBatch_loop batchSize bucket 0 [], None)"

text \<open>GetReadyEvents reads the clock once; the instant it reads is the parameter \<open>now\<close>.\<close>

fun GetReadyEvents_loop :: "time \<Rightarrow> int \<Rightarrow> bucket \<Rightarrow> int \<Rightarrow> Event list \<Rightarrow> Event list" where
  "GetReadyEvents_loop now batchSize [] count events = events"
| "GetReadyEvents_loop now batchSize ((key, val) # rest) count events =
     (if count < batchSize then
        (case json_Unmarshal val of
           Inl err \<Rightarrow> GetReadyEvents_loop now batchSize rest count events
         | Inr event \<Rightarrow>
             (case RequestedReadyTime event of
                None \<Rightarrow> GetReadyEvents_loop now batchSize rest (count + 1) (events @ [event])
              | Some readyTime \<Rightarrow>
                  (let threshold = time_Add now (30 * Minute) in
                   if time_Before readyTime threshold \<or> time_Equal readyTime threshold
                   then GetReadyEvents_loop now batchSize rest (count + 1) (events @ [event])
                   else GetReadyEvents_loop now batchSize rest count events)))
      else events)"

definition GetReadyEvents :: "time \<Rightarrow> int \<Rightarrow> bucket \<Rightarrow> Event list \<times> error option" where
  "GetReadyEvents now batchSize bucket = (GetReadyEvents_loop now batchSize bucket 0 [], None)"

text \<open>
  GetReadyEvents as the revision of buffer.go in src/unnamed/part_003 has it (lines 93 to
  124; the field is named \<^verbatim>\<open>DelayedUntil\<close> there): an event is ready when its
  time is nil or not after \<open>now\<close>. The slice is allocated first, with capacity
  \<open>batchSize\<close>: \<^verbatim>\<open>make\<close> panics when the capacity is negative or when the
  slice of pointers would exceed the largest allocation of the runtime (2 to the 48 bytes,
  so 2 to the 45 pointers, on 64-bit Linux); an allocation within that bound is taken to
  be granted.
\<close>

definition maxSliceCap :: int where
  "maxSliceCap = 2 ^ 45"

datatype panic = MakesliceCapOutOfRange

fun GetReadyEvents_delayedUntil_loop ::
  "time \<Rightarrow> int \<Rightarrow> bucket \<Rightarrow> int \<Rightarrow> Event list \<Rightarrow> Event list" where
  "GetReadyEvents_delayedUntil_loop now batchSize [] count events = events"
| "GetReadyEvents_delayedUntil_loop now batchSize ((key, val) # rest) count events =
     (if count < batchSize then
        (case json_Unmarshal val of
           Inl err \<Rightarrow> GetReadyEvents_delayedUntil_loop now batchSize rest count events
         | Inr event \<Rightarrow>
             (if RequestedReadyTime event = None
                 \<or> time_Before (the (RequestedReadyTime event)) now
                 \<or> time_Equal (the (RequestedReadyTime event)) now
              then GetReadyEvents_delayedUntil_loop now batchSize rest (count + 1)
                     (events @ [event])
              else GetReadyEvents_delayedUntil_loop now batchSize rest count events))
      else events)"

definition GetReadyEvents_delayedUntil ::
  "time \<Rightarrow> int \<Rightarrow> bucket \<Rightarrow> panic + Event list \<times> error option" where
  "GetReadyEvents_delayedUntil now batchSize bucket =
     (if batchSize < 0 \<or> maxSliceCap < batchSize then Inl MakesliceCapOutOfRange
      else Inr (GetReadyEvents_delayedUntil_loop now batchSize bucket 0 [], None))"

definition Delete :: "string \<Rightarrow> time \<Rightarrow> bucket \<Rightarrow> error option \<times> bucket" where
  "Delete eventID timestamp =
     db_Update (\<lambda>bucket. bucket_Delete (event_key timestamp eventID) bucket)"

definition UpdateRetries :: "string \<Rightarrow> time \<Rightarrow> 64 word \<Rightarrow> bucket \<Rightarrow> error option \<times> bucket" where
  "UpdateRetries eventID timestamp retries =
     db_Update (\<lambda>bucket.
       let key = event_key timestamp eventID in
       case bucket_Get key bucket of
         None \<Rightarrow> (Some ErrEventNotFound, bucket)
       | Some val \<Rightarrow>
           (case json_Unmarshal val of
              Inl err \<Rightarrow> (Some err, bucket)
            | Inr event \<Rightarrow>
                (case json_Marshal (event\<lparr>Retries := retries\<rparr>) of
                   Inl err \<Rightarrow> (Some err, bucket)
                 | Inr data \<Rightarrow> bucket_Put key data bucket)))"

definition Count :: "bucket \<Rightarrow> int \<times> error option" where
  "Count bucket = (int (length bucket), None)"

section \<open>kafka.go\<close>

text \<open>
  The part of \<^verbatim>\<open>config.KafkaConfig\<close> that the sync worker reads: \<^verbatim>\<open>Retries\<close>
  (KAFKA_RETRIES) and \<^verbatim>\<open>BatchSize\<close>.
\<close>

record KafkaConfig =
  cfg_Retries :: int
  cfg_BatchSize :: int

datatype header_value = HeaderBytes string | HeaderRFC3339 time

record Message =
  Key :: string
  Value :: stored_value
  Headers :: "(string \<times> header_value) list"

text \<open>
  What the worker does not control is an environment, asked by attempt number: the result
  of \<^verbatim>\<open>writer.WriteMessages\<close> at an attempt, what \<^verbatim>\<open>connMonitor.IsOnline\<close> answers
  after that attempt has failed, and whether the context is done before the timer fires in
  the \<^verbatim>\<open>select\<close> that precedes an attempt.
\<close>

record Env =
  WriteMessages :: "nat \<Rightarrow> Message list \<Rightarrow> error option"
  IsOnline :: "nat \<Rightarrow> bool"
  ctx_Done :: "nat \<Rightarrow> bool"

text \<open>The calls that leave the worker, in the order they are made.\<close>

datatype action =
  ActGetReadyEvents int
  | ActWait duration
  | ActWrite "Message list" "error option"
  | ActUpdateRetries string time "64 word"
  | ActDelete string time

datatype loop_exit = Returned "error option" | FellThrough

text \<open>
  The \<^verbatim>\<open>for\<close> loop of writeWithRetry. \<open>attempt\<close> and \<open>backoff\<close> are its variables;
  the loop ends by a \<^verbatim>\<open>return\<close> inside it, or falls through to the code after
  it (condition false, or \<^verbatim>\<open>break\<close>).
\<close>

function writeWithRetry_loop ::
  "Env \<Rightarrow> int \<Rightarrow> Message list \<Rightarrow> nat \<Rightarrow> duration \<Rightarrow> action list \<Rightarrow> loop_exit \<times> action list" where
  "writeWithRetry_loop env retries messages attempt backoff trace =
     (if int attempt < retries then
        (if attempt > 0 \<and> ctx_Done env attempt then (Returned (Some ErrContext), trace)
         else
           (let backoff' =
                  (if attempt > 0
                   then (if backoff * 2 > 30 * Second then 30 * Second else backoff * 2)
                   else backoff);
                trace1 = (if attempt > 0 then trace @ [ActWait backoff] else trace);
                err = WriteMessages env attempt messages;
                trace2 = trace1 @ [ActWrite messages err]
            in case err of
                 None \<Rightarrow> (Returned None, trace2)
               | Some e \<Rightarrow>
                   (if \<not> IsOnline env attempt then (FellThrough, trace2)
                    else writeWithRetry_loop env retries messages (attempt + 1) backoff' trace2)))
      else (FellThrough, trace))"
  by pat_completeness auto
termination
  by (relation "measure (\<lambda>(env, retries, messages, attempt, backoff, trace). nat (retries - int attempt))")
    auto

declare writeWithRetry_loop.simps [simp del]

text \<open>The loop over the events that follows the retry loop; a failed update is logged only.\<close>

fun update_all :: "Event list \<Rightarrow> bucket \<Rightarrow> action list \<Rightarrow> bucket \<times> action list" where
  "update_all [] bucket trace = (bucket, trace)"
| "update_all (event # rest) bucket trace =
     (case UpdateRetries (ID event) (Timestamp event) (Retries event + 1) bucket of
        (err, bucket') \<Rightarrow>
          update_all rest bucket'
            (trace @ [ActUpdateRetries (ID event) (Timestamp event) (Retries event + 1)]))"

definition writeWithRetry ::
  "Env \<Rightarrow> KafkaConfig \<Rightarrow> Message list \<Rightarrow> Event list \<Rightarrow> bucket
     \<Rightarrow> error option \<times> bucket \<times> action list" where
  "writeWithRetry env config messages events bucket =
     (case writeWithRetry_loop env (cfg_Retries config) messages 0 Second [] of
        (Returned res, trace) \<Rightarrow> (res, bucket, trace)
      | (FellThrough, trace) \<Rightarrow>
          (case update_all events bucket trace of
             (bucket', trace') \<Rightarrow> (Some (ErrKafkaWrite (cfg_Retries config)), bucket', trace')))"

text \<open>Building the messages: an event that fails to serialise is skipped.\<close>

definition event_message :: "Event \<Rightarrow> stored_value \<Rightarrow> Message" where
  "event_message event val =
     \<lparr>Key = ID event, Value = val,
      Headers = [(''operation'', HeaderBytes (Operation event)),
                 (''timestamp'', HeaderRFC3339 (Timestamp event))]\<rparr>"

fun build_messages :: "Event list \<Rightarrow> Message list" where
  "build_messages [] = []"
| "build_messages (event # rest) =
     (case json_Marshal event of
        Inl err \<Rightarrow> build_messages rest
      | Inr val \<Rightarrow> event_message event val # build_messages rest)"

text \<open>The last loop of syncBatch; a failed delete is logged only.\<close>

fun delete_all :: "Event list \<Rightarrow> bucket \<Rightarrow> action list \<Rightarrow> bucket \<times> action list" where
  "delete_all [] bucket trace = (bucket, trace)"
| "delete_all (event # rest) bucket trace =
     (case Delete (ID event) (Timestamp event) bucket of
        (err, bucket') \<Rightarrow>
          delete_all rest bucket' (trace @ [ActDelete (ID event) (Timestamp event)]))"

text \<open>syncBatch from its second statement on, which both revisions of kafka.go share.\<close>

definition syncBatch_body ::
  "Env \<Rightarrow> KafkaConfig \<Rightarrow> Event list \<times> error option \<Rightarrow> bucket \<Rightarrow> action list
     \<Rightarrow> error option \<times> bucket \<times> action list" where
  "syncBatch_body env config fetched bucket trace =
     (case fetched of
        (events, Some err) \<Rightarrow>
          (Some (ErrWrap ''failed to get ready events from buffer'' err), bucket, trace)
      | (events, None) \<Rightarrow>
          (if length events = 0 then (None, bucket, trace)
           else
             (let messages = build_messages events in
              if length messages = 0 then (None, bucket, trace)
              else
                (case writeWithRetry env config messages events bucket of
                   (Some err, bucket', wtrace) \<Rightarrow>
                     (Some (ErrWrap ''failed to write messages to Kafka'' err), bucket',
                      trace @ wtrace)
                 | (None, bucket', wtrace) \<Rightarrow>
                     (case delete_all events bucket' (trace @ wtrace) of
                        (bucket'', trace') \<Rightarrow> (None, bucket'', trace'))))))"

text \<open>syncBatch as kafka.go has it at lines 72 to 119: the count it asks for is \<^verbatim>\<open>ks.config.Retries\<close>.\<close>

definition syncBatch ::
  "Env \<Rightarrow> KafkaConfig \<Rightarrow> time \<Rightarrow> bucket \<Rightarrow> error option \<times> bucket \<times> action list" where
  "syncBatch env config now bucket =
     syncBatch_body env config (GetReadyEvents now (cfg_Retries config) bucket) bucket
       [ActGetReadyEvents (cfg_Retries config)]"

text \<open>syncBatch as kafka.go has it at lines 270 to 317: the count is \<^verbatim>\<open>ks.config.BatchSize\<close>.\<close>

definition syncBatch_2 ::
  "Env \<Rightarrow> KafkaConfig \<Rightarrow> time \<Rightarrow> bucket \<Rightarrow> error option \<times> bucket \<times> action list" where
  "syncBatch_2 env config now bucket =
     syncBatch_body env config (GetReadyEvents now (cfg_BatchSize config) bucket) bucket
       [ActGetReadyEvents (cfg_BatchSize config)]"

section \<open>The scheduler's cleanup task\<close>

fun cleanup_loop :: "time \<Rightarrow> Event list \<Rightarrow> bucket \<Rightarrow> int \<Rightarrow> bucket \<times> int" where
  "cleanup_loop cutoff [] bucket cleanedCount = (bucket, cleanedCount)"
| "cleanup_loop cutoff (event # rest) bucket cleanedCount =
     (if 10 < sint (Retries event) \<and> time_Before (Timestamp event) cutoff then
        (case Delete (ID event) (Timestamp event) bucket of
           (Some err, bucket') \<Rightarrow> cleanup_loop cutoff rest bucket' cleanedCount
         | (None, bucket') \<Rightarrow> cleanup_loop cutoff rest bucket' (cleanedCount + 1))
      else cleanup_loop cutoff rest bucket cleanedCount)"

definition cleanupTask :: "time \<Rightarrow> bucket \<Rightarrow> error option \<times> bucket" where
  "cleanupTask now bucket =
     (case GetBatch 1000 bucket of
        (events, Some err) \<Rightarrow> (Some (ErrWrap ''failed to get events for cleanup'' err), bucket)
      | (events, None) \<Rightarrow>
          (let cutoff = time_Add now (- 24 * Hour) in
           case cleanup_loop cutoff events bucket 0 of
             (bucket', cleanedCount) \<Rightarrow> (None, bucket')))"

section \<open>Reading the bucket: what the two scans return\<close>

text \<open>The events that the stored values decode to, in cursor order.\<close>

fun decoded :: "bucket \<Rightarrow> Event list" where
  "decoded [] = []"
| "decoded ((key, val) # rest) =
     (case json_Unmarshal val of Inl err \<Rightarrow> decoded rest | Inr event \<Rightarrow> event # decoded rest)"

text \<open>
  The readiness test with a window: ready when there is no ready time, or the ready time
  is at most \<open>now\<close> plus the window.
\<close>

definition ready_within :: "duration \<Rightarrow> time \<Rightarrow> Event \<Rightarrow> bool" where
  "ready_within window now event =
     (case RequestedReadyTime event of
        None \<Rightarrow> True
      | Some readyTime \<Rightarrow> readyTime \<le> now + window)"

definition is_ready :: "time \<Rightarrow> Event \<Rightarrow> bool" where
  "is_ready now event = ready_within (30 * Minute) now event"

text \<open>
  What a bucket of the store satisfies: the cursor order is strictly ascending in the keys,
  every key has a size the store accepts, and a value that decodes to an event lies under
  the key that Store gives that event.
\<close>

definition keys_sorted :: "bucket \<Rightarrow> bool" where
  "keys_sorted b = sorted_wrt (<) (map fst b)"

definition key_sizes_ok :: "bucket \<Rightarrow> bool" where
  "key_sizes_ok b = list_all (\<lambda>(k, v). 0 < length k \<and> length k \<le> MaxKeySize) b"

definition keys_match :: "bucket \<Rightarrow> bool" where
  "keys_match b =
     list_all (\<lambda>(k, v). case json_Unmarshal v of
                           Inr e \<Rightarrow> k = event_key (Timestamp e) (ID e)
                         | Inl err \<Rightarrow> True) b"

definition wf_bucket :: "bucket \<Rightarrow> bool" where
  "wf_bucket b = (keys_sorted b \<and> key_sizes_ok b \<and> keys_match b)"

text \<open>An event with the given id, ingestion time, retry count and ready time, for the examples.\<close>

definition ev :: "string \<Rightarrow> time \<Rightarrow> 64 word \<Rightarrow> time option \<Rightarrow> Event" where
  "ev i t r rt = \<lparr>ID = i, Operation = ''insert'', Timestamp = t, Data = JSONMap ''{}'', Retries = r,
                 RequestedReadyTime = rt\<rparr>"

section \<open>The scans as take and filter\<close>

lemma GetBatch_loop_eq:
  "GetBatch_loop n b c acc = acc @ take (nat (n - c)) (decoded b)"
proof (induction b arbitrary: c acc)
  case Nil
  then show ?case by simp
next
  case (Cons kv rest)
  obtain k v where kv: "kv = (k, v)" by (cases kv)
  show ?case
  proof (cases "c < n")
    case False
    then show ?thesis by (simp add: kv)
  next
    case True
    then have st: "nat (n - c) = Suc (nat (n - (c + 1)))" by simp
    show ?thesis
    proof (cases "json_Unmarshal v")
      case (Inr e)
      then show ?thesis using True Cons.IH [of "c + 1" "acc @ [e]"]
        by (simp add: kv st)
    next
      case (Inl err)
      then show ?thesis using True Cons.IH [of c acc] by (simp add: kv)
    qed
  qed
qed

lemma GetReadyEvents_loop_step:
  "json_Unmarshal v = Inr e \<Longrightarrow>
   GetReadyEvents_loop now n ((k, v) # rest) c acc =
     (if c < n then
        (if is_ready now e then GetReadyEvents_loop now n rest (c + 1) (acc @ [e])
         else GetReadyEvents_loop now n rest c acc)
      else acc)"
  by (auto simp: Let_def is_ready_def ready_within_def time_Add_def time_Before_def
      time_Equal_def split: option.splits)

lemma GetReadyEvents_delayedUntil_loop_step:
  "json_Unmarshal v = Inr e \<Longrightarrow>
   GetReadyEvents_delayedUntil_loop now n ((k, v) # rest) c acc =
     (if c < n then
        (if ready_within 0 now e
         then GetReadyEvents_delayedUntil_loop now n rest (c + 1) (acc @ [e])
         else GetReadyEvents_delayedUntil_loop now n rest c acc)
      else acc)"
  by (auto simp: ready_within_def time_Before_def time_Equal_def split: option.splits)

lemma GetReadyEvents_loop_eq:
  "GetReadyEvents_loop now n b c acc = acc @ take (nat (n - c)) (filter (is_ready now) (decoded b))"
proof (induction b arbitrary: c acc)
  case Nil
  then show ?case by simp
next
  case (Cons kv rest)
  obtain k v where kv: "kv = (k, v)" by (cases kv)
  show ?case
  proof (cases "c < n")
    case False
    then show ?thesis by (simp add: kv)
  next
    case True
    then have st: "nat (n - c) = Suc (nat (n - (c + 1)))" by simp
    show ?thesis
    proof (cases "json_Unmarshal v")
      case (Inl err)
      then show ?thesis using True Cons.IH [of c acc] by (simp add: kv)
    next
      case (Inr e)
      have d: "decoded ((k, v) # rest) = e # decoded rest" using Inr by simp
      show ?thesis
        unfolding kv GetReadyEvents_loop_step [OF Inr] d
        using True Cons.IH [of "c + 1" "acc @ [e]"] Cons.IH [of c acc]
        by (simp add: st)
    qed
  qed
qed

lemma GetReadyEvents_delayedUntil_loop_eq:
  "GetReadyEvents_delayedUntil_loop now n b c acc =
     acc @ take (nat (n - c)) (filter (ready_within 0 now) (decoded b))"
proof (induction b arbitrary: c acc)
  case Nil
  then show ?case by simp
next
  case (Cons kv rest)
  obtain k v where kv: "kv = (k, v)" by (cases kv)
  show ?case
  proof (cases "c < n")
    case False
    then show ?thesis by (simp add: kv)
  next
    case True
    then have st: "nat (n - c) = Suc (nat (n - (c + 1)))" by simp
    show ?thesis
    proof (cases "json_Unmarshal v")
      case (Inl err)
      then show ?thesis using True Cons.IH [of c acc] by (simp add: kv)
    next
      case (Inr e)
      have d: "decoded ((k, v) # rest) = e # decoded rest" using Inr by simp
      show ?thesis
        unfolding kv GetReadyEvents_delayedUntil_loop_step [OF Inr] d
        using True Cons.IH [of "c + 1" "acc @ [e]"] Cons.IH [of c acc]
        by (simp add: st)
    qed
  qed
qed

lemma GetBatch_eq: "GetBatch n b = (take (nat n) (decoded b), None)"
  by (simp add: GetBatch_def GetBatch_loop_eq)

lemma GetReadyEvents_eq:
  "GetReadyEvents now n b = (take (nat n) (filter (is_ready now) (decoded b)), None)"
  by (simp add: GetReadyEvents_def GetReadyEvents_loop_eq)

lemma GetReadyEvents_delayedUntil_eq:
  "0 \<le> n \<Longrightarrow> n \<le> maxSliceCap \<Longrightarrow> GetReadyEvents_delayedUntil now n b =
     Inr (take (nat n) (filter (ready_within 0 now) (decoded b)), None)"
  by (simp add: GetReadyEvents_delayedUntil_def GetReadyEvents_delayedUntil_loop_eq)

section \<open>Store, Delete, UpdateRetries and Count\<close>

lemma filter_absent: "k \<notin> fst ` set b \<Longrightarrow> filter (\<lambda>(k', v'). k' \<noteq> k) b = b"
  by (induction b) auto

lemma Delete_eq: "Delete eventID ts b = (None, filter (\<lambda>(k', v'). k' \<noteq> event_key ts eventID) b)"
  by (simp add: Delete_def db_Update_def bucket_Delete_def)

lemma UpdateRetries_absent:
  "event_key ts eventID \<notin> fst ` set b \<Longrightarrow> UpdateRetries eventID ts r b = (Some ErrEventNotFound, b)"
proof -
  assume "event_key ts eventID \<notin> fst ` set b"
  then have "map_of b (event_key ts eventID) = None" by (simp add: map_of_eq_None_iff)
  then show ?thesis by (simp add: UpdateRetries_def db_Update_def bucket_Get_def Let_def)
qed

text \<open>
  Claim C4. For a primary key (id, timestamp) that is absent from the buffer,
  UpdateRetries fails with the error "event not found" and leaves the store as it was,
  and Delete returns no error and leaves the store as it was.
\<close>

theorem absent_key:
  assumes "event_key ts eventID \<notin> fst ` set b"
  shows "UpdateRetries eventID ts r b = (Some ErrEventNotFound, b) \<and> Delete eventID ts b = (None, b)"
  using assms by (simp add: UpdateRetries_absent Delete_eq filter_absent)

lemma length_insert_absent: "k \<notin> fst ` set b \<Longrightarrow> length (bucket_insert k v b) = Suc (length b)"
  by (induction b) auto

lemma filter_insert_absent:
  "k \<notin> fst ` set b \<Longrightarrow> filter (\<lambda>(k', v'). k' \<noteq> k) (bucket_insert k v b) = b"
  by (induction b) (auto simp: filter_absent)

lemma Store_cases:
  "Store e b = (None, bucket_insert (event_key (Timestamp e) (ID e)) (EventJSON e) b)
     \<and> length (event_key (Timestamp e) (ID e)) \<le> MaxKeySize \<and> json_encodable e
   \<or> Store e b = (Some ErrKeyTooLarge, b) \<and> length (event_key (Timestamp e) (ID e)) > MaxKeySize
   \<or> Store e b = (Some (ErrWrap ''failed to marshal event'' ErrMarshal), b) \<and> \<not> json_encodable e"
  by (auto simp: Store_def db_Update_def json_Marshal_def bucket_Put_def event_key_def)

text \<open>
  Claim C5, amended. When the key of the event is absent from the buffer at the start,
  Store of the event followed by Delete of its id and timestamp leaves Count at its
  starting value (whether Store succeeds or fails). The claim as stated, for every
  starting state, fails when the key is already present: Store then overwrites, Delete
  removes, and Count drops by one.
\<close>

theorem store_delete_count:
  assumes "event_key (Timestamp e) (ID e) \<notin> fst ` set b"
  shows "fst (Count (snd (Delete (ID e) (Timestamp e) (snd (Store e b))))) = fst (Count b)"
  using assms Store_cases [of e b]
  by (auto simp: Delete_eq Count_def filter_insert_absent filter_absent)

lemmas key_eval = event_key_def show_int_def UnixNano_def show_nat.simps digit_char_def

lemmas codec_eval = json_Marshal_def json_encodable_def rfc3339_ok_def Second_def
  json_readback_def utf8_coerce_def in_range_def replacement_char_def

lemma ev_encodable: "rfc3339_ok t \<Longrightarrow> (case rt of None \<Rightarrow> True | Some u \<Rightarrow> rfc3339_ok u) \<Longrightarrow>
    json_encodable (ev i t r rt)"
  by (simp add: json_encodable_def ev_def)

section \<open>Strings that are read back are read back unchanged\<close>

lemma utf8_coerce_from_take:
  "j \<le> length xs \<Longrightarrow> utf8_coerce_from j xs = take j xs @ utf8_coerce_from 0 (drop j xs)"
proof (induction j arbitrary: xs)
  case 0
  then show ?case by simp
next
  case (Suc j)
  then obtain c rest where xs: "xs = c # rest" by (cases xs) auto
  then show ?case using Suc by simp
qed

lemma utf8_size_le_4: "utf8_size s \<le> 4"
  by (cases s) (auto simp: Let_def split: list.splits)

lemma utf8_size_length: "utf8_size (c # rest) = Suc j \<Longrightarrow> j \<le> length rest"
  by (auto simp: Let_def split: if_splits list.splits)

lemma utf8_size_prefix:
  "utf8_size (c # rest) = Suc j \<Longrightarrow> utf8_size (c # take j rest @ ys) = Suc j"
  by (auto simp: Let_def split: if_splits list.splits)

lemma utf8_size_replacement:
  "utf8_size (CHR 0xEF # CHR 0xBF # CHR 0xBD # ys) = Suc (Suc (Suc 0))"
  by (simp add: in_range_def)

lemma utf8_coerce_from_replacement:
  "utf8_coerce_from 0 (replacement_char @ ys) = replacement_char @ utf8_coerce_from 0 ys"
  by (simp add: replacement_char_def utf8_size_replacement del: utf8_size.simps)

lemma utf8_coerce_from_idem:
  "utf8_coerce_from 0 (utf8_coerce_from 0 s) = utf8_coerce_from 0 s"
proof (induction s rule: length_induct)
  case (1 s)
  show ?case
  proof (cases s)
    case Nil
    then show ?thesis by simp
  next
    case (Cons c rest)
    show ?thesis
    proof (cases "utf8_size (c # rest)")
      case 0
      have "utf8_coerce_from 0 (utf8_coerce_from 0 rest) = utf8_coerce_from 0 rest"
        using 1 Cons by simp
      then show ?thesis using 0 Cons by (simp add: utf8_coerce_from_replacement)
    next
      case (Suc j)
      have jl: "j \<le> length rest" using Suc by (rule utf8_size_length)
      let ?y = "utf8_coerce_from 0 (drop j rest)"
      have ih: "utf8_coerce_from 0 ?y = ?y" using 1 Cons by simp
      have a: "utf8_coerce_from 0 s = c # take j rest @ ?y"
        using Suc Cons utf8_coerce_from_take [OF jl] by simp
      have sz: "utf8_size (c # take j rest @ ?y) = Suc j" using Suc by (rule utf8_size_prefix)
      have "utf8_coerce_from j (take j rest @ ?y) = take j rest @ utf8_coerce_from 0 ?y"
        using jl utf8_coerce_from_take [of j "take j rest @ ?y"] by simp
      then show ?thesis using a sz ih by simp
    qed
  qed
qed

lemma utf8_coerce_idem: "utf8_coerce (utf8_coerce s) = utf8_coerce s"
  by (simp add: utf8_coerce_def utf8_coerce_from_idem)

lemma payload_readback_idem: "payload_readback (payload_readback d) = payload_readback d"
  by (cases d) simp_all

lemma payload_readback_supported: "payload_readback d = UnsupportedMap \<longleftrightarrow> d = UnsupportedMap"
  by (cases d) simp_all

lemma json_readback_idem: "json_readback (json_readback e) = json_readback e"
  by (simp add: json_readback_def utf8_coerce_idem payload_readback_idem)

lemma json_readback_encodable: "json_encodable (json_readback e) = json_encodable e"
  by (simp add: json_readback_def json_encodable_def payload_readback_supported)

lemma json_Unmarshal_Inr:
  "json_Unmarshal v = Inr e \<Longrightarrow> json_encodable e \<and> json_readback e = e"
  by (cases v) (auto simp: json_readback_idem json_readback_encodable split: if_splits)

lemma json_Unmarshal_Marshal:
  "json_Unmarshal v = Inr e \<Longrightarrow>
     json_Marshal (e\<lparr>Retries := k\<rparr>) = Inr (EventJSON (e\<lparr>Retries := k\<rparr>))
     \<and> json_Unmarshal (EventJSON (e\<lparr>Retries := k\<rparr>)) = Inr (e\<lparr>Retries := k\<rparr>)"
proof -
  assume "json_Unmarshal v = Inr e"
  then have e: "json_encodable e" "json_readback e = e" using json_Unmarshal_Inr by blast+
  have enc: "json_encodable (e\<lparr>Retries := k\<rparr>)" using e(1) by (simp add: json_encodable_def)
  have "json_readback (e\<lparr>Retries := k\<rparr>) = (json_readback e)\<lparr>Retries := k\<rparr>"
    by (simp add: json_readback_def)
  then show ?thesis using enc e(2) by (simp add: json_Marshal_def)
qed

theorem absent_key_witness:
  "event_key 1700000000000000001 ''b'' \<notin> fst ` set [(''1700000000000000000_a'', EventJSON (ev ''a'' 1700000000000000000 0 None))]
   \<and> UpdateRetries ''b'' 1700000000000000001 3 [(''1700000000000000000_a'', EventJSON (ev ''a'' 1700000000000000000 0 None))]
       = (Some ErrEventNotFound, [(''1700000000000000000_a'', EventJSON (ev ''a'' 1700000000000000000 0 None))])
   \<and> Delete ''b'' 1700000000000000001 [(''1700000000000000000_a'', EventJSON (ev ''a'' 1700000000000000000 0 None))]
       = (None, [(''1700000000000000000_a'', EventJSON (ev ''a'' 1700000000000000000 0 None))])"
proof -
  have h: "event_key 1700000000000000001 ''b'' \<notin> fst ` set [(''1700000000000000000_a'', EventJSON (ev ''a'' 1700000000000000000 0 None))]"
    by (simp add: key_eval)
  show ?thesis using h absent_key [OF h, of 3] by simp
qed

theorem store_delete_count_counterexample:
  "\<not> (\<forall>e b. fst (Count (snd (Delete (ID e) (Timestamp e) (snd (Store e b))))) = fst (Count b))"
proof
  assume a: "\<forall>e b. fst (Count (snd (Delete (ID e) (Timestamp e) (snd (Store e b))))) = fst (Count b)"
  let ?e = "ev ''a'' 1700000000000000000 0 None"
  let ?b = "[(''1700000000000000000_a'', EventJSON ?e)]"
  have "fst (Count (snd (Delete (ID ?e) (Timestamp ?e) (snd (Store ?e ?b))))) = 0"
    by (simp add: Store_def Delete_eq Count_def db_Update_def codec_eval bucket_Put_def
        MaxKeySize_def ev_def key_eval)
  moreover have "fst (Count ?b) = 1" by (simp add: Count_def)
  ultimately show False using a by (metis zero_neq_one)
qed

theorem store_delete_count_witness:
  "event_key (Timestamp (ev ''b'' 1700000000000000001 0 None)) (ID (ev ''b'' 1700000000000000001 0 None))
     \<notin> fst ` set [(''1700000000000000000_a'', EventJSON (ev ''a'' 1700000000000000000 0 None))]
   \<and> fst (Count (snd (Delete ''b'' 1700000000000000001
        (snd (Store (ev ''b'' 1700000000000000001 0 None)
           [(''1700000000000000000_a'', EventJSON (ev ''a'' 1700000000000000000 0 None))]))))) = 1"
proof -
  let ?e = "ev ''b'' 1700000000000000001 0 None"
  let ?b = "[(''1700000000000000000_a'', EventJSON (ev ''a'' 1700000000000000000 0 None))]"
  have h: "event_key (Timestamp ?e) (ID ?e) \<notin> fst ` set ?b"
    by (simp add: ev_def key_eval)
  have "fst (Count ?b) = 1" by (simp add: Count_def)
  then show ?thesis using h store_delete_count [OF h] by (simp add: ev_def)
qed

lemma decoded_append: "decoded (b1 @ b2) = decoded b1 @ decoded b2"
  by (induction b1) (auto split: sum.splits)

lemma length_decoded_le: "length (decoded b) \<le> length b"
  by (induction b) (auto split: sum.splits)

text \<open>
  Claim C10. A stored record whose value does not decode is skipped by GetBatch and by
  GetReadyEvents: with the record anywhere in the bucket, each scan returns, for every
  limit n, exactly what it returns without the record, and no error; the record counts
  in Count; so each scan returns fewer events than Count reports, whatever n is.
  The scans take the store and return no new store: the record stays where it is.
\<close>

theorem undecodable_skipped:
  "GetBatch n (b1 @ (k, NotEventJSON raw) # b2) = GetBatch n (b1 @ b2)
   \<and> snd (GetBatch n (b1 @ (k, NotEventJSON raw) # b2)) = None
   \<and> GetReadyEvents now n (b1 @ (k, NotEventJSON raw) # b2) = GetReadyEvents now n (b1 @ b2)
   \<and> snd (GetReadyEvents now n (b1 @ (k, NotEventJSON raw) # b2)) = None
   \<and> fst (Count (b1 @ (k, NotEventJSON raw) # b2)) = fst (Count (b1 @ b2)) + 1
   \<and> int (length (fst (GetBatch n (b1 @ (k, NotEventJSON raw) # b2))))
       < fst (Count (b1 @ (k, NotEventJSON raw) # b2))
   \<and> int (length (fst (GetReadyEvents now n (b1 @ (k, NotEventJSON raw) # b2))))
       < fst (Count (b1 @ (k, NotEventJSON raw) # b2))"
proof -
  have d: "decoded (b1 @ (k, NotEventJSON raw) # b2) = decoded (b1 @ b2)"
    by (simp add: decoded_append)
  have l: "length (decoded (b1 @ b2)) \<le> length b1 + length b2"
    using length_decoded_le [of "b1 @ b2"] by simp
  have l2: "length (filter (is_ready now) (decoded (b1 @ b2))) \<le> length b1 + length b2"
    using l length_filter_le [of "is_ready now" "decoded (b1 @ b2)"] by linarith
  show ?thesis
    using l l2 by (auto simp: GetBatch_eq GetReadyEvents_eq Count_def d min_def)
qed

section \<open>The ready window of the two revisions of GetReadyEvents\<close>

lemma take_all_filter:
  "int (length b) \<le> n \<Longrightarrow> take (nat n) (filter P (decoded b)) = filter P (decoded b)"
proof -
  assume "int (length b) \<le> n"
  then have "length (filter P (decoded b)) \<le> nat n"
    using length_decoded_le [of b] length_filter_le [of P "decoded b"] by linarith
  then show ?thesis by simp
qed

lemma ready_within_eq:
  "ready_within w now = (\<lambda>e. case RequestedReadyTime e of None \<Rightarrow> True
                                               | Some readyAt \<Rightarrow> readyAt \<le> now + w)"
  by (rule ext) (simp add: ready_within_def)

text \<open>
  Claim C1, amended. GetReadyEvents of buffer.go returns, in key order and up to n of them,
  exactly the decoded events whose ready time is nil or at most now plus 30 minutes; with n
  at least the number of records, a stored event with ready time now + delta is left out
  iff delta exceeds 30 minutes, and an event with no ready time is returned. The revision
  of GetReadyEvents in src/unnamed/part_003 has no such window: for n from 0 up to the
  largest slice capacity it returns the decoded events whose time is nil or at most now,
  so it leaves out an event with time now + delta iff delta exceeds 0; for any other n it
  panics in make. The claim as stated, with a window of 30 minutes for both, fails for that
  revision: an event that is due in 10 minutes is left out.
\<close>

theorem ready_window_revisions:
  "GetReadyEvents now n b =
     (take (nat n)
        (filter (\<lambda>e. case RequestedReadyTime e of None \<Rightarrow> True
                                               | Some readyAt \<Rightarrow> readyAt \<le> now + 30 * Minute)
           (decoded b)), None)
   \<and> (int (length b) \<le> n \<and> e \<in> set (decoded b) \<and> RequestedReadyTime e = Some (now + delta)
        \<longrightarrow> (e \<notin> set (fst (GetReadyEvents now n b)) \<longleftrightarrow> delta > 30 * Minute))
   \<and> (int (length b) \<le> n \<and> e \<in> set (decoded b) \<and> RequestedReadyTime e = None
        \<longrightarrow> e \<in> set (fst (GetReadyEvents now n b)))
   \<and> (0 \<le> n \<and> n \<le> maxSliceCap \<longrightarrow>
        GetReadyEvents_delayedUntil now n b =
          Inr (take (nat n)
                 (filter (\<lambda>e. case RequestedReadyTime e of None \<Rightarrow> True
                                                        | Some readyAt \<Rightarrow> readyAt \<le> now)
                    (decoded b)), None))
   \<and> (int (length b) \<le> n \<and> n \<le> maxSliceCap \<and> e \<in> set (decoded b)
        \<and> RequestedReadyTime e = Some (now + delta)
        \<longrightarrow> (\<exists>events. GetReadyEvents_delayedUntil now n b = Inr (events, None)
                      \<and> (e \<notin> set events \<longleftrightarrow> delta > 0)))
   \<and> (int (length b) \<le> n \<and> n \<le> maxSliceCap \<and> e \<in> set (decoded b)
        \<and> RequestedReadyTime e = None
        \<longrightarrow> (\<exists>events. GetReadyEvents_delayedUntil now n b = Inr (events, None) \<and> e \<in> set events))
   \<and> (n < 0 \<or> maxSliceCap < n \<longrightarrow>
        GetReadyEvents_delayedUntil now n b = Inl MakesliceCapOutOfRange)"
proof -
  have f: "is_ready now = (\<lambda>e. case RequestedReadyTime e of None \<Rightarrow> True
                                               | Some readyAt \<Rightarrow> readyAt \<le> now + 30 * Minute)"
    unfolding is_ready_def by (rule ready_within_eq)
  have g: "ready_within 0 now = (\<lambda>e. case RequestedReadyTime e of None \<Rightarrow> True
                                               | Some readyAt \<Rightarrow> readyAt \<le> now)"
    by (rule ext) (simp add: ready_within_def split: option.splits)
  have c1: "GetReadyEvents now n b =
     (take (nat n)
        (filter (\<lambda>e. case RequestedReadyTime e of None \<Rightarrow> True
                                               | Some readyAt \<Rightarrow> readyAt \<le> now + 30 * Minute)
           (decoded b)), None)"
    by (simp add: GetReadyEvents_eq f)
  have c2: "int (length b) \<le> n \<and> e \<in> set (decoded b) \<and> RequestedReadyTime e = Some (now + delta)
        \<longrightarrow> (e \<notin> set (fst (GetReadyEvents now n b)) \<longleftrightarrow> delta > 30 * Minute)"
    by (auto simp: c1 take_all_filter)
  have c3: "int (length b) \<le> n \<and> e \<in> set (decoded b) \<and> RequestedReadyTime e = None
        \<longrightarrow> e \<in> set (fst (GetReadyEvents now n b))"
    by (auto simp: c1 take_all_filter)
  have c4: "0 \<le> n \<and> n \<le> maxSliceCap \<longrightarrow>
        GetReadyEvents_delayedUntil now n b =
          Inr (take (nat n)
                 (filter (\<lambda>e. case RequestedReadyTime e of None \<Rightarrow> True
                                                        | Some readyAt \<Rightarrow> readyAt \<le> now)
                    (decoded b)), None)"
    by (simp add: GetReadyEvents_delayedUntil_eq g)
  have n0: "int (length b) \<le> n \<Longrightarrow> 0 \<le> n" by linarith
  have c5: "int (length b) \<le> n \<and> n \<le> maxSliceCap \<and> e \<in> set (decoded b)
        \<and> RequestedReadyTime e = Some (now + delta)
        \<longrightarrow> (\<exists>events. GetReadyEvents_delayedUntil now n b = Inr (events, None)
                      \<and> (e \<notin> set events \<longleftrightarrow> delta > 0))"
    using c4 n0 by (auto simp: take_all_filter)
  have c6: "int (length b) \<le> n \<and> n \<le> maxSliceCap \<and> e \<in> set (decoded b)
        \<and> RequestedReadyTime e = None
        \<longrightarrow> (\<exists>events. GetReadyEvents_delayedUntil now n b = Inr (events, None) \<and> e \<in> set events)"
    using c4 n0 by (auto simp: take_all_filter)
  have c7: "n < 0 \<or> maxSliceCap < n \<longrightarrow>
        GetReadyEvents_delayedUntil now n b = Inl MakesliceCapOutOfRange"
    by (simp add: GetReadyEvents_delayedUntil_def)
  show ?thesis using c1 c2 c3 c4 c5 c6 c7 by blast
qed


theorem ready_window_revisions_witness:
  "int (length [(''1700000000000000000_a'', EventJSON (ev ''a'' 1700000000000000000 0 None)),
                (''1700000000000000001_b'', EventJSON (ev ''b'' 1700000000000000001 0 (Some (1700000000000000000 + 10 * Minute)))),
                (''1700000000000000002_c'', EventJSON (ev ''c'' 1700000000000000002 0 (Some (1700000000000000000 + 31 * Minute)))),
                (''1700000000000000003_d'', EventJSON (ev ''d'' 1700000000000000003 0 (Some (1700000000000000000 + 30 * Minute))))]) \<le> 10
   \<and> (0::int) \<le> 10 \<and> 10 \<le> maxSliceCap
   \<and> ev ''c'' 1700000000000000002 0 (Some (1700000000000000000 + 31 * Minute))
       \<notin> set (fst (GetReadyEvents 1700000000000000000 10
               [(''1700000000000000000_a'', EventJSON (ev ''a'' 1700000000000000000 0 None)),
                (''1700000000000000001_b'', EventJSON (ev ''b'' 1700000000000000001 0 (Some (1700000000000000000 + 10 * Minute)))),
                (''1700000000000000002_c'', EventJSON (ev ''c'' 1700000000000000002 0 (Some (1700000000000000000 + 31 * Minute)))),
                (''1700000000000000003_d'', EventJSON (ev ''d'' 1700000000000000003 0 (Some (1700000000000000000 + 30 * Minute))))]))
   \<and> ev ''a'' 1700000000000000000 0 None
       \<in> set (fst (GetReadyEvents 1700000000000000000 10
               [(''1700000000000000000_a'', EventJSON (ev ''a'' 1700000000000000000 0 None)),
                (''1700000000000000001_b'', EventJSON (ev ''b'' 1700000000000000001 0 (Some (1700000000000000000 + 10 * Minute)))),
                (''1700000000000000002_c'', EventJSON (ev ''c'' 1700000000000000002 0 (Some (1700000000000000000 + 31 * Minute)))),
                (''1700000000000000003_d'', EventJSON (ev ''d'' 1700000000000000003 0 (Some (1700000000000000000 + 30 * Minute))))]))
   \<and> GetReadyEvents 1700000000000000000 10
               [(''1700000000000000000_a'', EventJSON (ev ''a'' 1700000000000000000 0 None)),
                (''1700000000000000001_b'', EventJSON (ev ''b'' 1700000000000000001 0 (Some (1700000000000000000 + 10 * Minute)))),
                (''1700000000000000002_c'', EventJSON (ev ''c'' 1700000000000000002 0 (Some (1700000000000000000 + 31 * Minute)))),
                (''1700000000000000003_d'', EventJSON (ev ''d'' 1700000000000000003 0 (Some (1700000000000000000 + 30 * Minute))))]
       = ([ev ''a'' 1700000000000000000 0 None,
           ev ''b'' 1700000000000000001 0 (Some (1700000000000000000 + 10 * Minute)),
           ev ''d'' 1700000000000000003 0 (Some (1700000000000000000 + 30 * Minute))], None)
   \<and> GetReadyEvents_delayedUntil 1700000000000000000 10
               [(''1700000000000000000_a'', EventJSON (ev ''a'' 1700000000000000000 0 None)),
                (''1700000000000000001_b'', EventJSON (ev ''b'' 1700000000000000001 0 (Some (1700000000000000000 + 10 * Minute)))),
                (''1700000000000000002_c'', EventJSON (ev ''c'' 1700000000000000002 0 (Some (1700000000000000000 + 31 * Minute)))),
                (''1700000000000000003_d'', EventJSON (ev ''d'' 1700000000000000003 0 (Some (1700000000000000000 + 30 * Minute))))]
       = Inr ([ev ''a'' 1700000000000000000 0 None], None)
   \<and> GetReadyEvents_delayedUntil 1700000000000000000 (- 1)
               [(''1700000000000000000_a'', EventJSON (ev ''a'' 1700000000000000000 0 None))]
       = Inl MakesliceCapOutOfRange"
proof -
  let ?now = "1700000000000000000 :: int"
  let ?a = "ev ''a'' 1700000000000000000 0 None"
  let ?c = "ev ''c'' 1700000000000000002 0 (Some (?now + 31 * Minute))"
  let ?b = "[(''1700000000000000000_a'', EventJSON ?a),
                (''1700000000000000001_b'', EventJSON (ev ''b'' 1700000000000000001 0 (Some (?now + 10 * Minute)))),
                (''1700000000000000002_c'', EventJSON ?c),
                (''1700000000000000003_d'', EventJSON (ev ''d'' 1700000000000000003 0 (Some (?now + 30 * Minute))))]"
  have d: "decoded ?b = [?a, ev ''b'' 1700000000000000001 0 (Some (?now + 10 * Minute)), ?c,
                         ev ''d'' 1700000000000000003 0 (Some (?now + 30 * Minute))]"
    by (simp add: codec_eval ev_def Minute_def)
  have h1: "int (length ?b) \<le> 10" by simp
  have h0: "(0::int) \<le> 10 \<and> 10 \<le> maxSliceCap" by (simp add: maxSliceCap_def)
  have h2: "?c \<in> set (decoded ?b)" unfolding d by simp
  have h2a: "?a \<in> set (decoded ?b)" unfolding d by simp
  have h3: "RequestedReadyTime ?c = Some (?now + 31 * Minute)" by (simp add: ev_def)
  have h3a: "RequestedReadyTime ?a = None" by (simp add: ev_def)
  have h4: "31 * Minute > 30 * Minute" by (simp add: Minute_def Second_def)
  note inst_c = ready_window_revisions [of ?now 10 ?b ?c "31 * Minute"]
  note inst_a = ready_window_revisions [of ?now 10 ?b ?a 0]
  note inst_n = ready_window_revisions [of ?now "- 1" "[(''1700000000000000000_a'', EventJSON ?a)]" ?a 0]
  have r1: "?c \<notin> set (fst (GetReadyEvents ?now 10 ?b))"
    using inst_c h1 h2 h3 h4 by blast
  have r1a: "?a \<in> set (fst (GetReadyEvents ?now 10 ?b))"
    using inst_a h1 h2a h3a by blast
  have r2: "GetReadyEvents ?now 10 ?b =
       ([?a, ev ''b'' 1700000000000000001 0 (Some (?now + 10 * Minute)),
         ev ''d'' 1700000000000000003 0 (Some (?now + 30 * Minute))], None)"
    using inst_c unfolding d by (simp add: ev_def Minute_def Second_def)
  have r3: "GetReadyEvents_delayedUntil ?now 10 ?b = Inr ([?a], None)"
    using inst_c h0 unfolding d by (simp add: ev_def Minute_def Second_def)
  have r4: "GetReadyEvents_delayedUntil ?now (- 1) [(''1700000000000000000_a'', EventJSON ?a)]
       = Inl MakesliceCapOutOfRange"
    using inst_n by simp
  show ?thesis using h1 h0 r1 r1a r2 r3 r4 by blast
qed

theorem ready_window_delayedUntil_counterexample:
  "(10 * Minute \<le> 30 * Minute)
   \<and> RequestedReadyTime (ev ''b'' 1700000000000000001 0 (Some (1700000000000000000 + 10 * Minute)))
       = Some (1700000000000000000 + 10 * Minute)
   \<and> GetReadyEvents_delayedUntil 1700000000000000000 10
        [(''1700000000000000001_b'',
          EventJSON (ev ''b'' 1700000000000000001 0 (Some (1700000000000000000 + 10 * Minute))))]
       = Inr ([], None)
   \<and> GetReadyEvents 1700000000000000000 10
        [(''1700000000000000001_b'',
          EventJSON (ev ''b'' 1700000000000000001 0 (Some (1700000000000000000 + 10 * Minute))))]
       = ([ev ''b'' 1700000000000000001 0 (Some (1700000000000000000 + 10 * Minute))], None)"
  by (simp add: GetReadyEvents_delayedUntil_def GetReadyEvents_def maxSliceCap_def codec_eval
      ev_def Minute_def time_Add_def time_Before_def time_Equal_def)

section \<open>UpdateRetries on a key that is present\<close>

lemma map_of_bucket_insert: "map_of (bucket_insert k v b) = (map_of b)(k \<mapsto> v)"
  by (induction b) (auto simp: fun_upd_twist)

lemma keys_bucket_insert: "fst ` set (bucket_insert k v b) = insert k (fst ` set b)"
proof (induction b)
  case Nil
  then show ?case by simp
next
  case (Cons kv rest)
  obtain k' v' where kv: "kv = (k', v')" by (cases kv)
  show ?case using Cons.IH by (auto simp: kv)
qed

lemma keys_insert_present:
  "sorted_wrt (<) (map fst b) \<Longrightarrow> k \<in> fst ` set b \<Longrightarrow> map fst (bucket_insert k v b) = map fst b"
proof (induction b)
  case Nil
  then show ?case by simp
next
  case (Cons kv rest)
  obtain k' v' where kv: "kv = (k', v')" by (cases kv)
  from Cons.prems have r: "sorted_wrt (<) (map fst rest)" and h: "\<forall>x \<in> fst ` set rest. k' < x"
    by (auto simp: kv)
  show ?case
  proof (cases "k = k'")
    case True
    then show ?thesis by (simp add: kv)
  next
    case False
    then have "k \<in> fst ` set rest" using Cons.prems(2) by (auto simp: kv)
    moreover from this have "k' < k" using h by blast
    ultimately show ?thesis using False Cons.IH [OF r] by (auto simp: kv)
  qed
qed

lemma key_size_of_present:
  "key_sizes_ok b \<Longrightarrow> map_of b k = Some v \<Longrightarrow> 0 < length k \<and> length k \<le> MaxKeySize"
proof -
  assume a: "key_sizes_ok b" and m: "map_of b k = Some v"
  from m have "(k, v) \<in> set b" by (rule map_of_SomeD)
  with a show ?thesis by (auto simp: key_sizes_ok_def list_all_iff)
qed

lemma UpdateRetries_present:
  assumes "map_of b (event_key ts eventID) = Some v"
    and "json_Unmarshal v = Inr e"
    and "length (event_key ts eventID) \<le> MaxKeySize"
  shows "UpdateRetries eventID ts r b =
     (None, bucket_insert (event_key ts eventID) (EventJSON (e\<lparr>Retries := r\<rparr>)) b)"
proof -
  have "length (event_key ts eventID) \<noteq> 0" by (simp add: event_key_def)
  then show ?thesis using assms json_Unmarshal_Marshal [OF assms(2), of r]
    by (simp add: UpdateRetries_def db_Update_def bucket_Get_def Let_def bucket_Put_def)
qed

lemma insert_least:
  "\<forall>k' \<in> fst ` set b. k \<le> k' \<Longrightarrow> \<exists>rest. bucket_insert k v b = (k, v) # rest"
  by (cases b) auto

lemma json_readback_fixed:
  "utf8_coerce (ID e) = ID e \<Longrightarrow> utf8_coerce (Operation e) = Operation e \<Longrightarrow>
   payload_readback (Data e) = Data e \<Longrightarrow> json_readback e = e"
  by (simp add: json_readback_def)

text \<open>
  Claim C7, amended. Let the record under the key of an event e decode to e, in a bucket
  as the store keeps it (keys ascending, of accepted sizes). Then UpdateRetries of the id
  and timestamp of e with any count k succeeds; afterwards the record under that key decodes
  to e with retries k and every other field as before, every other key holds what it held,
  and the keys are the same. When Store of e succeeds on a buffer in which no key is smaller
  than the key of e (the empty buffer, for one), Store, UpdateRetries with k, GetBatch(1)
  returns e as its JSON text is read back, with retries k; that is e with retries k when the
  id and the operation of e are valid UTF-8 and its data is what its text decodes to. The
  claim as stated fails twice: with a smaller key in the buffer GetBatch(1) returns the
  event of that key, and an id that is not valid UTF-8 comes back with U+FFFD in it.
\<close>

theorem update_retries_frame:
  "(keys_sorted b \<and> key_sizes_ok b
      \<and> bucket_Get (event_key (Timestamp e) (ID e)) b = Some v \<and> json_Unmarshal v = Inr e \<longrightarrow>
      fst (UpdateRetries (ID e) (Timestamp e) k b) = None
      \<and> (\<exists>v'. bucket_Get (event_key (Timestamp e) (ID e))
                  (snd (UpdateRetries (ID e) (Timestamp e) k b)) = Some v'
               \<and> json_Unmarshal v' = Inr (e\<lparr>Retries := k\<rparr>))
      \<and> (\<forall>k'. k' \<noteq> event_key (Timestamp e) (ID e) \<longrightarrow>
            bucket_Get k' (snd (UpdateRetries (ID e) (Timestamp e) k b)) = bucket_Get k' b)
      \<and> map fst (snd (UpdateRetries (ID e) (Timestamp e) k b)) = map fst b)
   \<and> (fst (Store e b0) = None \<and> (\<forall>k' \<in> fst ` set b0. event_key (Timestamp e) (ID e) \<le> k') \<longrightarrow>
      GetBatch 1 (snd (UpdateRetries (ID e) (Timestamp e) k (snd (Store e b0))))
        = ([(json_readback e)\<lparr>Retries := k\<rparr>], None))
   \<and> (fst (Store e b0) = None \<and> (\<forall>k' \<in> fst ` set b0. event_key (Timestamp e) (ID e) \<le> k')
      \<and> utf8_coerce (ID e) = ID e \<and> utf8_coerce (Operation e) = Operation e
      \<and> payload_readback (Data e) = Data e \<longrightarrow>
      GetBatch 1 (snd (UpdateRetries (ID e) (Timestamp e) k (snd (Store e b0))))
        = ([e\<lparr>Retries := k\<rparr>], None))"
proof -
  let ?key = "event_key (Timestamp e) (ID e)"
  let ?e' = "e\<lparr>Retries := k\<rparr>"
  have p1: "keys_sorted b \<and> key_sizes_ok b
      \<and> bucket_Get ?key b = Some v \<and> json_Unmarshal v = Inr e \<longrightarrow>
      fst (UpdateRetries (ID e) (Timestamp e) k b) = None
      \<and> (\<exists>v'. bucket_Get ?key (snd (UpdateRetries (ID e) (Timestamp e) k b)) = Some v'
               \<and> json_Unmarshal v' = Inr ?e')
      \<and> (\<forall>k'. k' \<noteq> ?key \<longrightarrow>
            bucket_Get k' (snd (UpdateRetries (ID e) (Timestamp e) k b)) = bucket_Get k' b)
      \<and> map fst (snd (UpdateRetries (ID e) (Timestamp e) k b)) = map fst b"
  proof
    assume a: "keys_sorted b \<and> key_sizes_ok b
      \<and> bucket_Get ?key b = Some v \<and> json_Unmarshal v = Inr e"
    then have m: "map_of b ?key = Some v" and dec: "json_Unmarshal v = Inr e"
      by (simp_all add: bucket_Get_def)
    from a have ks: "key_sizes_ok b" and so: "sorted_wrt (<) (map fst b)"
      by (simp_all add: keys_sorted_def)
    have len: "length ?key \<le> MaxKeySize"
      using key_size_of_present [OF ks m] by simp
    have u: "UpdateRetries (ID e) (Timestamp e) k b = (None, bucket_insert ?key (EventJSON ?e') b)"
      by (rule UpdateRetries_present [OF m dec len])
    have pres: "?key \<in> fst ` set b" using map_of_SomeD [OF m] by force
    have reread: "json_Unmarshal (EventJSON ?e') = Inr ?e'"
      using json_Unmarshal_Marshal [OF dec, of k] by simp
    have g1: "fst (UpdateRetries (ID e) (Timestamp e) k b) = None" by (simp add: u)
    have "bucket_Get ?key (snd (UpdateRetries (ID e) (Timestamp e) k b)) = Some (EventJSON ?e')"
      by (simp add: u bucket_Get_def map_of_bucket_insert)
    then have g2: "\<exists>v'. bucket_Get ?key (snd (UpdateRetries (ID e) (Timestamp e) k b)) = Some v'
               \<and> json_Unmarshal v' = Inr ?e'"
      using reread by blast
    have g3: "\<forall>k'. k' \<noteq> ?key \<longrightarrow>
            bucket_Get k' (snd (UpdateRetries (ID e) (Timestamp e) k b)) = bucket_Get k' b"
      by (simp add: u bucket_Get_def map_of_bucket_insert)
    have g4: "map fst (snd (UpdateRetries (ID e) (Timestamp e) k b)) = map fst b"
      by (simp add: u keys_insert_present [OF so pres])
    show "fst (UpdateRetries (ID e) (Timestamp e) k b) = None
      \<and> (\<exists>v'. bucket_Get ?key (snd (UpdateRetries (ID e) (Timestamp e) k b)) = Some v'
               \<and> json_Unmarshal v' = Inr ?e')
      \<and> (\<forall>k'. k' \<noteq> ?key \<longrightarrow>
            bucket_Get k' (snd (UpdateRetries (ID e) (Timestamp e) k b)) = bucket_Get k' b)
      \<and> map fst (snd (UpdateRetries (ID e) (Timestamp e) k b)) = map fst b"
      using g1 g2 g3 g4 by blast
  qed
  have p2: "fst (Store e b0) = None \<and> (\<forall>k' \<in> fst ` set b0. ?key \<le> k') \<longrightarrow>
      GetBatch 1 (snd (UpdateRetries (ID e) (Timestamp e) k (snd (Store e b0))))
        = ([(json_readback e)\<lparr>Retries := k\<rparr>], None)"
  proof
    assume a: "fst (Store e b0) = None \<and> (\<forall>k' \<in> fst ` set b0. ?key \<le> k')"
    then have st: "Store e b0 = (None, bucket_insert ?key (EventJSON e) b0)"
      and len: "length ?key \<le> MaxKeySize" and enc: "json_encodable e"
      using Store_cases [of e b0] by auto
    from a obtain rest where r: "bucket_insert ?key (EventJSON e) b0 = (?key, EventJSON e) # rest"
      using insert_least [of b0 ?key "EventJSON e"] by blast
    let ?r = "json_readback e"
    have dec: "json_Unmarshal (EventJSON e) = Inr ?r" using enc by simp
    have u: "UpdateRetries (ID e) (Timestamp e) k ((?key, EventJSON e) # rest)
        = (None, bucket_insert ?key (EventJSON (?r\<lparr>Retries := k\<rparr>)) ((?key, EventJSON e) # rest))"
      by (rule UpdateRetries_present [OF _ dec len]) simp
    have reread: "json_Unmarshal (EventJSON (?r\<lparr>Retries := k\<rparr>)) = Inr (?r\<lparr>Retries := k\<rparr>)"
      using json_Unmarshal_Marshal [OF dec, of k] by simp
    show "GetBatch 1 (snd (UpdateRetries (ID e) (Timestamp e) k (snd (Store e b0))))
        = ([?r\<lparr>Retries := k\<rparr>], None)"
      unfolding st snd_conv r u using reread by (simp add: GetBatch_eq del: json_Unmarshal.simps)
  qed
  have p3: "fst (Store e b0) = None \<and> (\<forall>k' \<in> fst ` set b0. ?key \<le> k')
      \<and> utf8_coerce (ID e) = ID e \<and> utf8_coerce (Operation e) = Operation e
      \<and> payload_readback (Data e) = Data e \<longrightarrow>
      GetBatch 1 (snd (UpdateRetries (ID e) (Timestamp e) k (snd (Store e b0))))
        = ([e\<lparr>Retries := k\<rparr>], None)"
    using p2 json_readback_fixed [of e] by auto
  show ?thesis using p1 p2 p3 by blast
qed


lemma utf8_coerce_from_numeral:
  "utf8_coerce_from (numeral n) (c # rest) = c # utf8_coerce_from (pred_numeral n) rest"
  by (simp add: numeral_eq_Suc)

theorem update_retries_frame_witness:
  "keys_sorted [(''1700000000000000000_a'', EventJSON (ev ''a'' 1700000000000000000 0 None)),
                (''1700000000000000001_b'', EventJSON (ev ''b'' 1700000000000000001 2 None))]
   \<and> key_sizes_ok [(''1700000000000000000_a'', EventJSON (ev ''a'' 1700000000000000000 0 None)),
                   (''1700000000000000001_b'', EventJSON (ev ''b'' 1700000000000000001 2 None))]
   \<and> bucket_Get (event_key (Timestamp (ev ''b'' 1700000000000000001 2 None)) (ID (ev ''b'' 1700000000000000001 2 None)))
        [(''1700000000000000000_a'', EventJSON (ev ''a'' 1700000000000000000 0 None)),
         (''1700000000000000001_b'', EventJSON (ev ''b'' 1700000000000000001 2 None))]
       = Some (EventJSON (ev ''b'' 1700000000000000001 2 None))
   \<and> json_Unmarshal (EventJSON (ev ''b'' 1700000000000000001 2 None))
       = Inr (ev ''b'' 1700000000000000001 2 None)
   \<and> fst (UpdateRetries (ID (ev ''b'' 1700000000000000001 2 None))
          (Timestamp (ev ''b'' 1700000000000000001 2 None)) 5
        [(''1700000000000000000_a'', EventJSON (ev ''a'' 1700000000000000000 0 None)),
         (''1700000000000000001_b'', EventJSON (ev ''b'' 1700000000000000001 2 None))]) = None
   \<and> snd (UpdateRetries ''b'' 1700000000000000001 5
        [(''1700000000000000000_a'', EventJSON (ev ''a'' 1700000000000000000 0 None)),
         (''1700000000000000001_b'', EventJSON (ev ''b'' 1700000000000000001 2 None))])
       = [(''1700000000000000000_a'', EventJSON (ev ''a'' 1700000000000000000 0 None)),
          (''1700000000000000001_b'', EventJSON (ev ''b'' 1700000000000000001 5 None))]
   \<and> fst (Store (ev ''b'' 1700000000000000001 2 None)
        [(''1700000000000000002_c'', EventJSON (ev ''c'' 1700000000000000002 0 None))]) = None
   \<and> event_key (Timestamp (ev ''b'' 1700000000000000001 2 None)) (ID (ev ''b'' 1700000000000000001 2 None))
        \<le> ''1700000000000000002_c''
   \<and> utf8_coerce (ID (ev ''b'' 1700000000000000001 2 None)) = ID (ev ''b'' 1700000000000000001 2 None)
   \<and> utf8_coerce (Operation (ev ''b'' 1700000000000000001 2 None))
       = Operation (ev ''b'' 1700000000000000001 2 None)
   \<and> payload_readback (Data (ev ''b'' 1700000000000000001 2 None))
       = Data (ev ''b'' 1700000000000000001 2 None)
   \<and> GetBatch 1 (snd (UpdateRetries (ID (ev ''b'' 1700000000000000001 2 None))
         (Timestamp (ev ''b'' 1700000000000000001 2 None)) 5
         (snd (Store (ev ''b'' 1700000000000000001 2 None)
            [(''1700000000000000002_c'', EventJSON (ev ''c'' 1700000000000000002 0 None))]))))
       = ([(ev ''b'' 1700000000000000001 2 None)\<lparr>Retries := 5\<rparr>], None)
   \<and> fst (Store (ev [CHR 0xFF] 1700000000000000001 2 None) []) = None
   \<and> GetBatch 1 (snd (UpdateRetries (ID (ev [CHR 0xFF] 1700000000000000001 2 None))
         (Timestamp (ev [CHR 0xFF] 1700000000000000001 2 None)) 5
         (snd (Store (ev [CHR 0xFF] 1700000000000000001 2 None) []))))
       = ([ev [CHR 0xEF, CHR 0xBF, CHR 0xBD] 1700000000000000001 5 None], None)"
proof -
  let ?e = "ev ''b'' 1700000000000000001 2 None"
  let ?x = "ev [CHR 0xFF] 1700000000000000001 2 None"
  let ?b = "[(''1700000000000000000_a'', EventJSON (ev ''a'' 1700000000000000000 0 None)),
             (''1700000000000000001_b'', EventJSON ?e)]"
  let ?start = "[(''1700000000000000002_c'', EventJSON (ev ''c'' 1700000000000000002 0 None))]"
  have key: "event_key (Timestamp ?e) (ID ?e) = ''1700000000000000001_b''"
    by (simp add: ev_def key_eval)
  have h1: "keys_sorted ?b" by (simp add: keys_sorted_def)
  have h2: "key_sizes_ok ?b" by (simp add: key_sizes_ok_def MaxKeySize_def)
  have h3: "bucket_Get (event_key (Timestamp ?e) (ID ?e)) ?b = Some (EventJSON ?e)"
    unfolding key by (simp add: bucket_Get_def)
  have h4: "json_Unmarshal (EventJSON ?e) = Inr ?e" by (simp add: codec_eval ev_def)
  have h5: "fst (Store ?e ?start) = None"
    unfolding Store_def key by (simp add: db_Update_def codec_eval bucket_Put_def MaxKeySize_def ev_def)
  have h6: "event_key (Timestamp ?e) (ID ?e) \<le> ''1700000000000000002_c''"
    unfolding key by simp
  then have h7: "\<forall>k' \<in> fst ` set ?start. event_key (Timestamp ?e) (ID ?e) \<le> k'" by simp
  have h8: "utf8_coerce (ID ?e) = ID ?e" by (simp add: codec_eval ev_def)
  have h9: "utf8_coerce (Operation ?e) = Operation ?e" by (simp add: codec_eval ev_def)
  have h10: "payload_readback (Data ?e) = Data ?e" by (simp add: ev_def)
  have h11: "fst (Store ?x []) = None"
    by (simp add: Store_def db_Update_def codec_eval bucket_Put_def MaxKeySize_def ev_def key_eval)
  have h12: "\<forall>k' \<in> fst ` set ([] :: bucket). event_key (Timestamp ?x) (ID ?x) \<le> k'" by simp
  have rx: "(json_readback ?x)\<lparr>Retries := 5\<rparr> = ev [CHR 0xEF, CHR 0xBF, CHR 0xBD] 1700000000000000001 5 None"
    by (simp add: codec_eval ev_def)
  note inst_e = update_retries_frame [of ?b ?e "EventJSON ?e" 5 ?start]
  note inst_x = update_retries_frame [of ?b ?x "EventJSON ?e" 5 "[]"]
  have u0: "fst (UpdateRetries (ID ?e) (Timestamp ?e) 5 ?b) = None"
    using inst_e h1 h2 h3 h4 by blast
  have u: "snd (UpdateRetries ''b'' 1700000000000000001 5 ?b)
       = [(''1700000000000000000_a'', EventJSON (ev ''a'' 1700000000000000000 0 None)),
          (''1700000000000000001_b'', EventJSON (ev ''b'' 1700000000000000001 5 None))]"
    by (simp add: UpdateRetries_def db_Update_def bucket_Get_def Let_def codec_eval
        bucket_Put_def MaxKeySize_def ev_def key_eval)
  have g: "GetBatch 1 (snd (UpdateRetries (ID ?e) (Timestamp ?e) 5 (snd (Store ?e ?start))))
       = ([?e\<lparr>Retries := 5\<rparr>], None)"
    using inst_e h5 h7 h8 h9 h10 by blast
  have "GetBatch 1 (snd (UpdateRetries (ID ?x) (Timestamp ?x) 5 (snd (Store ?x []))))
       = ([(json_readback ?x)\<lparr>Retries := 5\<rparr>], None)"
    using inst_x h11 h12 by blast
  then have gx: "GetBatch 1 (snd (UpdateRetries (ID ?x) (Timestamp ?x) 5 (snd (Store ?x []))))
       = ([ev [CHR 0xEF, CHR 0xBF, CHR 0xBD] 1700000000000000001 5 None], None)"
    unfolding rx .
  show ?thesis using h1 h2 h3 h4 u0 u h5 h6 h8 h9 h10 g h11 gx by blast
qed

theorem update_retries_get_first_counterexample:
  "fst (GetBatch 1 (snd (UpdateRetries (ID (ev ''b'' 1700000000000000001 0 None))
         (Timestamp (ev ''b'' 1700000000000000001 0 None)) 5
         (snd (Store (ev ''b'' 1700000000000000001 0 None)
            [(''1700000000000000000_a'', EventJSON (ev ''a'' 1700000000000000000 0 None))])))))
     = [ev ''a'' 1700000000000000000 0 None]
   \<and> fst (GetBatch 1 (snd (UpdateRetries (ID (ev ''b'' 1700000000000000001 0 None))
         (Timestamp (ev ''b'' 1700000000000000001 0 None)) 5
         (snd (Store (ev ''b'' 1700000000000000001 0 None)
            [(''1700000000000000000_a'', EventJSON (ev ''a'' 1700000000000000000 0 None))])))))
     \<noteq> [(ev ''b'' 1700000000000000001 0 None)\<lparr>Retries := 5\<rparr>]
   \<and> fst (GetBatch 1 (snd (UpdateRetries (ID (ev [CHR 0xFF] 1700000000000000001 0 None))
         (Timestamp (ev [CHR 0xFF] 1700000000000000001 0 None)) 5
         (snd (Store (ev [CHR 0xFF] 1700000000000000001 0 None) [])))))
     = [ev [CHR 0xEF, CHR 0xBF, CHR 0xBD] 1700000000000000001 5 None]
   \<and> fst (GetBatch 1 (snd (UpdateRetries (ID (ev [CHR 0xFF] 1700000000000000001 0 None))
         (Timestamp (ev [CHR 0xFF] 1700000000000000001 0 None)) 5
         (snd (Store (ev [CHR 0xFF] 1700000000000000001 0 None) [])))))
     \<noteq> [(ev [CHR 0xFF] 1700000000000000001 0 None)\<lparr>Retries := 5\<rparr>]"
  by (simp add: Store_def UpdateRetries_def db_Update_def bucket_Get_def Let_def codec_eval
      bucket_Put_def MaxKeySize_def GetBatch_def ev_def key_eval utf8_coerce_from_numeral)

end
